theory Spec2Isabelle
  imports Complex_Main "HOL-Library.Multiset"
begin

section \<open>Data model of the collection matcher\<close>

text \<open>
  View identifiers are \<open>size_t\<close>/\<open>IndexT\<close> values; a \<open>Pair\<close> is a
  \<open>std::pair\<close> of two of them and an \<open>IndMatch\<close> a pair of feature indices.
  A \<open>Pair_Set\<close> is a \<open>std::set<Pair>\<close>; the code only iterates over it, so it is
  given here as the sequence of pairs that the iteration visits.
\<close>

type_synonym Pair = "nat \<times> nat"
type_synonym IndMatch = "nat \<times> nat"

text \<open>
  Modelled from the spec: the enumeration \<open>EMatcherType\<close> is declared in a header that
  is not among the sources. Section 4.1 of the specification names three strategies
  (brute force, tree-based approximate, cascade hashing); the constructor
  \<open>CASCADE_HASHING_L2\<close> is the one the matcher code refers to.
\<close>

datatype EMatcherType = BRUTE_FORCE_L2 | ANN_L2 | CASCADE_HASHING_L2

text \<open>
  The abstract class \<open>features::Regions\<close>, reduced to what \<open>Match\<close> reads from it:
  the type tag and the stored descriptors, whose number is \<open>RegionCount\<close>. The
  provider \<open>regionsPerView.getRegions\<close> is a parameter of the functions below, a
  function from a view and a descriptor type to the regions of the view.
\<close>

record Regions =
  Type_id :: string
  Descriptors :: "nat list list"

definition RegionCount :: "Regions \<Rightarrow> nat" where
  "RegionCount r = length (Descriptors r)"

text \<open>
  \<open>PairwiseMatches\<close> is a \<open>std::map\<close> from pairs to a \<open>std::map\<close> from descriptor
  types to match vectors. The descriptor type enumeration is a type parameter \<open>'t\<close>.
\<close>

type_synonym 't PairwiseMatches = "Pair \<rightharpoonup> ('t \<rightharpoonup> IndMatch list)"

text \<open>
  The state that \<open>Match\<close> updates: the progress display's counter and the output map.
  Two further components record the calls that the function makes to its
  collaborators: the reference views for which a \<open>RegionsDatabaseMatcher\<close> has been
  constructed, in order, and the pairs on which \<open>matcher.Match\<close> has been called.
\<close>

record 't match_state =
  my_progress_bar :: nat
  map_PutativesMatches :: "'t PairwiseMatches"
  built :: "nat list"
  matched :: "Pair set"

section \<open>ImageCollectionMatcher_Generic::Match\<close>

definition b_multithreaded_pair_search :: "EMatcherType \<Rightarrow> bool" where
  "b_multithreaded_pair_search matcherType = (matcherType = CASCADE_HASHING_L2)"

text \<open>
  \<open>map_Pairs[iter->first].push_back(iter->second)\<close> on a \<open>std::map\<close> whose values
  are vectors: the map is kept as a list of entries in ascending key order, which is the
  order in which the second loop visits it.
\<close>

fun push_back_at :: "nat \<Rightarrow> nat \<Rightarrow> (nat \<times> nat list) list \<Rightarrow> (nat \<times> nat list) list" where
  "push_back_at i j [] = [(i, [j])]"
| "push_back_at i j ((k, js) # rest) =
     (if i = k then (k, js @ [j]) # rest
      else if i < k then (i, [j]) # (k, js) # rest
      else (k, js) # push_back_at i j rest)"

definition map_Pairs :: "Pair list \<Rightarrow> (nat \<times> nat list) list" where
  "map_Pairs pairs = fold (\<lambda>p m. push_back_at (fst p) (snd p) m) pairs []"

text \<open>
  \<open>m[p].emplace(descType, v)\<close>: \<open>operator[]\<close> creates an empty inner map when the
  pair has none, and \<open>emplace\<close> leaves an entry that is already there untouched.
\<close>

definition emplace_at :: "Pair \<Rightarrow> 't \<Rightarrow> IndMatch list \<Rightarrow> 't PairwiseMatches \<Rightarrow> 't PairwiseMatches" where
  "emplace_at p descType v m =
     (let inner = (case m p of None \<Rightarrow> Map.empty | Some x \<Rightarrow> x)
      in m(p \<mapsto> (case inner descType of None \<Rightarrow> inner(descType \<mapsto> v) | Some w \<Rightarrow> inner)))"

text \<open>
  One iteration of the inner loop, for the comparison view \<open>J\<close>. The parameter
  \<open>matcher_Match\<close> stands for \<open>matcher.Match\<close> of the matcher built on \<open>regionsI\<close>.
  The updates of the shared counter and of the shared map sit in critical sections, so
  an iteration acts on the shared state in one step.
\<close>

definition compare_view ::
  "(real \<Rightarrow> Regions \<Rightarrow> IndMatch list) \<Rightarrow> (nat \<Rightarrow> 't \<Rightarrow> Regions) \<Rightarrow> real \<Rightarrow> 't \<Rightarrow>
   nat \<Rightarrow> Regions \<Rightarrow> nat \<Rightarrow> 't match_state \<Rightarrow> 't match_state" where
  "compare_view matcher_Match getRegions f_dist_ratio descType I regionsI J st =
     (let regionsJ = getRegions J descType
      in if RegionCount regionsJ = 0 \<or> Type_id regionsI \<noteq> Type_id regionsJ
         then st\<lparr>my_progress_bar := my_progress_bar st + 1\<rparr>
         else
           (let vec_putatives_matches = matcher_Match f_dist_ratio regionsJ
            in st\<lparr>my_progress_bar := my_progress_bar st + 1,
                  matched := insert (I, J) (matched st),
                  map_PutativesMatches :=
                    (if vec_putatives_matches \<noteq> []
                     then emplace_at (I, J) descType vec_putatives_matches (map_PutativesMatches st)
                     else map_PutativesMatches st)\<rparr>))"

text \<open>
  One iteration of the outer loop, for the entry \<open>(I, indexToCompare)\<close> of
  \<open>map_Pairs\<close>. The inner loop is an OpenMP \<open>parallel for schedule(dynamic)\<close> with
  the clause \<open>if(b_multithreaded_pair_search)\<close>: when the flag is set, the iterations
  reach their critical sections in an order that the runtime chooses, given here by
  \<open>sched I indexToCompare\<close>; when it is not set, the loop runs in index order.
\<close>

definition match_group ::
  "(nat \<Rightarrow> nat list \<Rightarrow> nat list) \<Rightarrow> EMatcherType \<Rightarrow>
   (EMatcherType \<Rightarrow> Regions \<Rightarrow> real \<Rightarrow> Regions \<Rightarrow> IndMatch list) \<Rightarrow>
   (nat \<Rightarrow> 't \<Rightarrow> Regions) \<Rightarrow> real \<Rightarrow> 't \<Rightarrow> nat \<times> nat list \<Rightarrow> 't match_state \<Rightarrow> 't match_state" where
  "match_group sched matcherType RegionsDatabaseMatcher getRegions f_dist_ratio descType entry st =
     (let I = fst entry; indexToCompare = snd entry; regionsI = getRegions I descType
      in if RegionCount regionsI = 0
         then st\<lparr>my_progress_bar := my_progress_bar st + length indexToCompare\<rparr>
         else
           fold (compare_view (RegionsDatabaseMatcher matcherType regionsI) getRegions
                   f_dist_ratio descType I regionsI)
             (if b_multithreaded_pair_search matcherType then sched I indexToCompare
              else indexToCompare)
             (st\<lparr>built := built st @ [I]\<rparr>))"

definition Match ::
  "(nat \<Rightarrow> nat list \<Rightarrow> nat list) \<Rightarrow> EMatcherType \<Rightarrow> real \<Rightarrow>
   (EMatcherType \<Rightarrow> Regions \<Rightarrow> real \<Rightarrow> Regions \<Rightarrow> IndMatch list) \<Rightarrow>
   (nat \<Rightarrow> 't \<Rightarrow> Regions) \<Rightarrow> Pair list \<Rightarrow> 't \<Rightarrow> 't PairwiseMatches \<Rightarrow> 't match_state" where
  "Match sched matcherType f_dist_ratio RegionsDatabaseMatcher getRegions pairs descType m0 =
     fold (match_group sched matcherType RegionsDatabaseMatcher getRegions f_dist_ratio descType)
       (map_Pairs pairs)
       \<lparr>my_progress_bar = 0, map_PutativesMatches = m0, built = [], matched = {}\<rparr>"

text \<open>
  A schedule of the parallel loop runs every iteration exactly once: it permutes the
  indices it is given.
\<close>

definition schedule :: "(nat \<Rightarrow> nat list \<Rightarrow> nat list) \<Rightarrow> bool" where
  "schedule sched = (\<forall>I js. mset (sched I js) = mset js)"

text \<open>
  The algorithm that the grouped execution replaces, in the words of the
  specification: every requested pair is handled on its own, with a matcher built
  afresh on the reference view of the pair.
\<close>

definition match_pair_naive ::
  "EMatcherType \<Rightarrow> (EMatcherType \<Rightarrow> Regions \<Rightarrow> real \<Rightarrow> Regions \<Rightarrow> IndMatch list) \<Rightarrow>
   (nat \<Rightarrow> 't \<Rightarrow> Regions) \<Rightarrow> real \<Rightarrow> 't \<Rightarrow> Pair \<Rightarrow> 't match_state \<Rightarrow> 't match_state" where
  "match_pair_naive matcherType RegionsDatabaseMatcher getRegions f_dist_ratio descType p st =
     (let I = fst p; J = snd p; regionsI = getRegions I descType
      in if RegionCount regionsI = 0
         then st\<lparr>my_progress_bar := my_progress_bar st + 1\<rparr>
         else compare_view (RegionsDatabaseMatcher matcherType regionsI) getRegions
                f_dist_ratio descType I regionsI J (st\<lparr>built := built st @ [I]\<rparr>))"

definition Match_naive ::
  "EMatcherType \<Rightarrow> real \<Rightarrow>
   (EMatcherType \<Rightarrow> Regions \<Rightarrow> real \<Rightarrow> Regions \<Rightarrow> IndMatch list) \<Rightarrow>
   (nat \<Rightarrow> 't \<Rightarrow> Regions) \<Rightarrow> Pair list \<Rightarrow> 't \<Rightarrow> 't PairwiseMatches \<Rightarrow> 't match_state" where
  "Match_naive matcherType f_dist_ratio RegionsDatabaseMatcher getRegions pairs descType m0 =
     fold (match_pair_naive matcherType RegionsDatabaseMatcher getRegions f_dist_ratio descType)
       pairs
       \<lparr>my_progress_bar = 0, map_PutativesMatches = m0, built = [], matched = {}\<rparr>"

text \<open>
  Vocabulary for the statements below: a pair is comparable when neither of the two
  skip tests of \<open>Match\<close> fires for it; \<open>putatives\<close> is the match vector that the
  matcher returns for it; \<open>slot\<close> is the entry of the output map at a pair after an
  \<open>emplace\<close> there; \<open>pairs_of\<close> are the pairs held by a grouped map.
\<close>

definition comparable :: "(nat \<Rightarrow> 't \<Rightarrow> Regions) \<Rightarrow> 't \<Rightarrow> Pair \<Rightarrow> bool" where
  "comparable getRegions descType p =
     (RegionCount (getRegions (fst p) descType) \<noteq> 0 \<and>
      RegionCount (getRegions (snd p) descType) \<noteq> 0 \<and>
      Type_id (getRegions (fst p) descType) = Type_id (getRegions (snd p) descType))"

definition putatives ::
  "(EMatcherType \<Rightarrow> Regions \<Rightarrow> real \<Rightarrow> Regions \<Rightarrow> IndMatch list) \<Rightarrow> EMatcherType \<Rightarrow>
   (nat \<Rightarrow> 't \<Rightarrow> Regions) \<Rightarrow> real \<Rightarrow> 't \<Rightarrow> Pair \<Rightarrow> IndMatch list" where
  "putatives RegionsDatabaseMatcher matcherType getRegions f_dist_ratio descType p =
     RegionsDatabaseMatcher matcherType (getRegions (fst p) descType) f_dist_ratio
       (getRegions (snd p) descType)"

definition slot :: "'t \<Rightarrow> IndMatch list \<Rightarrow> ('t \<rightharpoonup> IndMatch list) option \<Rightarrow> ('t \<rightharpoonup> IndMatch list) option" where
  "slot descType v old =
     (let inner = (case old of None \<Rightarrow> Map.empty | Some x \<Rightarrow> x)
      in Some (case inner descType of None \<Rightarrow> inner(descType \<mapsto> v) | Some w \<Rightarrow> inner))"

definition filled ::
  "(EMatcherType \<Rightarrow> Regions \<Rightarrow> real \<Rightarrow> Regions \<Rightarrow> IndMatch list) \<Rightarrow> EMatcherType \<Rightarrow>
   (nat \<Rightarrow> 't \<Rightarrow> Regions) \<Rightarrow> real \<Rightarrow> 't \<Rightarrow> Pair set \<Rightarrow> 't PairwiseMatches \<Rightarrow> 't PairwiseMatches" where
  "filled rdm mt g r t S m =
     (\<lambda>p. if p \<in> S \<and> comparable g t p \<and> putatives rdm mt g r t p \<noteq> []
          then slot t (putatives rdm mt g r t p) (m p) else m p)"

definition pairs_of :: "(nat \<times> nat list) list \<Rightarrow> Pair set" where
  "pairs_of groups = (\<Union>e \<in> set groups. {fst e} \<times> set (snd e))"

text \<open>
  A small collection for concrete runs, after the end-to-end scenarios of the
  specification: view 0 has no descriptors, views 1 and 2 hold the same single
  descriptor, view 3 holds five descriptors. The matcher of the scene accepts the
  correspondence \<open>(0, 0)\<close> between views with equal descriptor sets and nothing else.
\<close>

definition scene_regions :: "nat \<Rightarrow> nat \<Rightarrow> Regions" where
  "scene_regions v t =
     \<lparr>Type_id = ''unsigned char'',
      Descriptors = (if v = 0 then [] else if v = 3 then [[7], [7], [7], [7], [7]] else [[1, 2, 3]])\<rparr>"

definition scene_matcher :: "EMatcherType \<Rightarrow> Regions \<Rightarrow> real \<Rightarrow> Regions \<Rightarrow> IndMatch list" where
  "scene_matcher mt regionsI r regionsJ =
     (if Descriptors regionsI = Descriptors regionsJ then [(0, 0)] else [])"

definition scene_pairs :: "Pair list" where
  "scene_pairs = [(0, 3), (1, 2), (1, 3), (2, 0)]"

section \<open>RegionsDatabaseMatcher::Match\<close>




section \<open>VoctreeLocalizer::Localize\<close>

text \<open>
  Modelled from the spec: the sources hold the declaration of
  \<open>VoctreeLocalizer::Localize\<close>, which returns \<open>bool\<close>, and not its body. After
  section 4.5 of the specification: the descriptors of the query are quantized into
  visual words and the database is asked for the best \<open>topK\<close> documents; the
  candidates are matched in score order, up to an optional cap, and their
  correspondences are accumulated until a configured count is reached or the candidates
  are exhausted; with fewer correspondences than the solver needs the request fails, and
  otherwise the resection solver decides. The vocabulary tree, the database, the
  matching against one candidate and the solver are parameters. After section 7, a
  database query may end fatally on a programming error (a histogram from another
  vocabulary tree); a fatal end is the left summand of the result.
\<close>

datatype failure_reason = NoRetrievalCandidates | InsufficientCorrespondences | ResectionFailed

datatype fatal_error = ForeignVocabulary

datatype ('pose, 'c) localization = Localized 'pose "'c list" | Failed failure_reason

record localizer_config =
  topK :: nat
  maxCandidates :: "nat option"
  enoughCorrespondences :: nat
  resectionMinimum :: nat

fun accumulate :: "(nat \<Rightarrow> 'c list) \<Rightarrow> nat \<Rightarrow> nat list \<Rightarrow> 'c list \<Rightarrow> 'c list" where
  "accumulate matchCandidate enough [] acc = acc"
| "accumulate matchCandidate enough (doc # docs) acc =
     (let acc' = acc @ matchCandidate doc
      in if enough \<le> length acc' then acc' else accumulate matchCandidate enough docs acc')"

definition attempted_candidates :: "localizer_config \<Rightarrow> (nat \<times> real) list \<Rightarrow> (nat \<times> real) list" where
  "attempted_candidates cfg candidates =
     (case maxCandidates cfg of None \<Rightarrow> candidates | Some n \<Rightarrow> take n candidates)"

definition gather_correspondences ::
  "localizer_config \<Rightarrow> (nat \<Rightarrow> 'c list) \<Rightarrow> (nat \<times> real) list \<Rightarrow> 'c list" where
  "gather_correspondences cfg matchCandidate candidates =
     accumulate matchCandidate (enoughCorrespondences cfg)
       (map fst (attempted_candidates cfg candidates)) []"

definition localize_request ::
  "localizer_config \<Rightarrow> ('d \<Rightarrow> nat) \<Rightarrow> (nat list \<Rightarrow> nat \<Rightarrow> fatal_error + (nat \<times> real) list) \<Rightarrow>
   (nat \<Rightarrow> 'c list) \<Rightarrow> ('c list \<Rightarrow> ('pose \<times> 'c list) option) \<Rightarrow> 'd list \<Rightarrow>
   fatal_error + ('pose, 'c) localization" where
  "localize_request cfg Quantize databaseQuery matchCandidate Resect query_regions =
     (case databaseQuery (map Quantize query_regions) (topK cfg) of
        Inl fatal \<Rightarrow> Inl fatal
      | Inr candidates \<Rightarrow>
          if candidates = [] then Inr (Failed NoRetrievalCandidates)
          else
            (let correspondences = gather_correspondences cfg matchCandidate candidates
             in if length correspondences < resectionMinimum cfg
                then Inr (Failed InsufficientCorrespondences)
                else (case Resect correspondences of
                        None \<Rightarrow> Inr (Failed ResectionFailed)
                      | Some (pose, inliers) \<Rightarrow> Inr (Localized pose inliers))))"

fun succeeded :: "('pose, 'c) localization \<Rightarrow> bool" where
  "succeeded (Localized pose inliers) = True"
| "succeeded (Failed reason) = False"

definition Localize ::
  "localizer_config \<Rightarrow> ('d \<Rightarrow> nat) \<Rightarrow> (nat list \<Rightarrow> nat \<Rightarrow> fatal_error + (nat \<times> real) list) \<Rightarrow>
   (nat \<Rightarrow> 'c list) \<Rightarrow> ('c list \<Rightarrow> ('pose \<times> 'c list) option) \<Rightarrow> 'd list \<Rightarrow> fatal_error + bool" where
  "Localize cfg Quantize databaseQuery matchCandidate Resect query_regions =
     (case localize_request cfg Quantize databaseQuery matchCandidate Resect query_regions of
        Inl fatal \<Rightarrow> Inl fatal
      | Inr outcome \<Rightarrow> Inr (succeeded outcome))"

section \<open>SIFT_openCV_ImageDescriber::Describe: grid filtering\<close>












definition scene_config :: localizer_config where
  "scene_config =
     \<lparr>topK = 3, maxCandidates = None, enoughCorrespondences = 10, resectionMinimum = 4\<rparr>"

definition scene_database :: "nat list \<Rightarrow> nat \<Rightarrow> fatal_error + (nat \<times> real) list" where
  "scene_database histogram k = Inr (take k [(5, 1)])"

definition scene_candidate_matches :: "nat \<Rightarrow> IndMatch list" where
  "scene_candidate_matches doc = [(0, 0), (1, 1)]"

definition scene_solver :: "IndMatch list \<Rightarrow> (unit \<times> IndMatch list) option" where
  "scene_solver correspondences = None"

section \<open>Progress\<close>

lemma progress_compare_view:
  "my_progress_bar (compare_view mm g r t I rI J st) = my_progress_bar st + 1"
  by (simp add: compare_view_def Let_def)

lemma progress_inner_loop:
  "my_progress_bar (fold (compare_view mm g r t I rI) js st) = my_progress_bar st + length js"
  by (induction js arbitrary: st) (simp_all add: progress_compare_view)

lemma schedule_length: "schedule sched \<Longrightarrow> length (sched I js) = length js"
  unfolding schedule_def by (metis size_mset)

lemma schedule_set: "schedule sched \<Longrightarrow> set (sched I js) = set js"
  unfolding schedule_def by (metis set_mset_mset)

lemma progress_match_group:
  assumes "schedule sched"
  shows "my_progress_bar (match_group sched mt rdm g r t e st) = my_progress_bar st + length (snd e)"
  using schedule_length[OF assms]
  by (simp add: match_group_def Let_def progress_inner_loop)

lemma progress_outer_loop:
  assumes "schedule sched"
  shows "my_progress_bar (fold (match_group sched mt rdm g r t) groups st) =
         my_progress_bar st + sum_list (map (\<lambda>e. length (snd e)) groups)"
  by (induction groups arbitrary: st) (simp_all add: progress_match_group[OF assms])

lemma size_push_back_at:
  "sum_list (map (\<lambda>e. length (snd e)) (push_back_at i j m)) =
   Suc (sum_list (map (\<lambda>e. length (snd e)) m))"
  by (induction i j m rule: push_back_at.induct) simp_all

lemma size_fold_push_back_at:
  "sum_list (map (\<lambda>e. length (snd e)) (fold (\<lambda>p m. push_back_at (fst p) (snd p) m) pairs m)) =
   length pairs + sum_list (map (\<lambda>e. length (snd e)) m)"
  by (induction pairs arbitrary: m) (simp_all add: size_push_back_at)

lemma size_map_Pairs: "sum_list (map (\<lambda>e. length (snd e)) (map_Pairs pairs)) = length pairs"
  by (simp add: map_Pairs_def size_fold_push_back_at)

section \<open>The output map\<close>

lemma emplace_at_same: "emplace_at p t v m p = slot t v (m p)"
  by (simp add: emplace_at_def slot_def Let_def)

lemma emplace_at_other: "q \<noteq> p \<Longrightarrow> emplace_at p t v m q = m q"
  by (simp add: emplace_at_def Let_def)

lemma slot_idem: "slot t v (slot t v old) = slot t v old"
  by (auto simp: slot_def Let_def split: option.splits)

lemma filled_empty: "filled rdm mt g r t {} m = m"
  by (simp add: filled_def)

lemma filled_union:
  "filled rdm mt g r t A (filled rdm mt g r t B m) = filled rdm mt g r t (A \<union> B) m"
  by (rule ext) (auto simp: filled_def slot_idem)

lemma map_compare_view:
  assumes "RegionCount (g I t) \<noteq> 0"
  shows "map_PutativesMatches (compare_view (rdm mt (g I t)) g r t I (g I t) J st) =
         filled rdm mt g r t {(I, J)} (map_PutativesMatches st)"
proof (rule ext)
  fix p
  show "map_PutativesMatches (compare_view (rdm mt (g I t)) g r t I (g I t) J st) p =
        filled rdm mt g r t {(I, J)} (map_PutativesMatches st) p"
    using assms
    by (cases "p = (I, J)")
       (auto simp: compare_view_def filled_def comparable_def putatives_def Let_def
                   emplace_at_same emplace_at_other)
qed

lemma map_inner_loop:
  assumes "RegionCount (g I t) \<noteq> 0"
  shows "map_PutativesMatches (fold (compare_view (rdm mt (g I t)) g r t I (g I t)) js st) =
         filled rdm mt g r t ({I} \<times> set js) (map_PutativesMatches st)"
proof (induction js arbitrary: st)
  case Nil
  show ?case by (simp add: filled_empty)
next
  case (Cons j js)
  have "{I} \<times> set js \<union> {(I, j)} = {I} \<times> set (j # js)" by auto
  with assms show ?case
    by (simp add: Cons.IH map_compare_view filled_union)
qed

lemma filled_not_comparable:
  assumes "\<forall>p \<in> S. \<not> comparable g t p"
  shows "filled rdm mt g r t S m = m"
  using assms by (intro ext) (auto simp: filled_def)

lemma map_match_group:
  assumes "schedule sched"
  shows "map_PutativesMatches (match_group sched mt rdm g r t e st) =
         filled rdm mt g r t ({fst e} \<times> set (snd e)) (map_PutativesMatches st)"
proof (cases "RegionCount (g (fst e) t) = 0")
  case True
  then have "\<forall>p \<in> {fst e} \<times> set (snd e). \<not> comparable g t p"
    by (auto simp: comparable_def)
  then show ?thesis
    using True by (simp add: match_group_def Let_def filled_not_comparable)
next
  case False
  then show ?thesis
    by (simp add: match_group_def Let_def map_inner_loop schedule_set[OF assms])
qed

lemma map_outer_loop:
  assumes "schedule sched"
  shows "map_PutativesMatches (fold (match_group sched mt rdm g r t) groups st) =
         filled rdm mt g r t (pairs_of groups) (map_PutativesMatches st)"
proof (induction groups arbitrary: st)
  case Nil
  show ?case by (simp add: pairs_of_def filled_empty)
next
  case (Cons e groups)
  have "pairs_of groups \<union> {fst e} \<times> set (snd e) = pairs_of (e # groups)"
    by (auto simp: pairs_of_def)
  then show ?case
    by (simp add: Cons.IH map_match_group[OF assms] filled_union)
qed

lemma pairs_of_push_back_at: "pairs_of (push_back_at i j m) = insert (i, j) (pairs_of m)"
  by (induction i j m rule: push_back_at.induct) (auto simp: pairs_of_def)

lemma pairs_of_fold_push_back_at:
  "pairs_of (fold (\<lambda>p m. push_back_at (fst p) (snd p) m) pairs m) = set pairs \<union> pairs_of m"
  by (induction pairs arbitrary: m) (auto simp: pairs_of_push_back_at)

lemma pairs_of_map_Pairs: "pairs_of (map_Pairs pairs) = set pairs"
  by (simp add: map_Pairs_def pairs_of_fold_push_back_at) (simp add: pairs_of_def)

lemma map_Match:
  assumes "schedule sched"
  shows "map_PutativesMatches (Match sched mt r rdm g pairs t m0) =
         filled rdm mt g r t (set pairs) m0"
  by (simp add: Match_def map_outer_loop[OF assms] pairs_of_map_Pairs)

lemma map_match_pair_naive:
  "map_PutativesMatches (match_pair_naive mt rdm g r t p st) =
   filled rdm mt g r t {p} (map_PutativesMatches st)"
proof (cases "RegionCount (g (fst p) t) = 0")
  case True
  then have "\<forall>q \<in> {p}. \<not> comparable g t q"
    by (simp add: comparable_def)
  then show ?thesis
    using True by (simp add: match_pair_naive_def Let_def filled_not_comparable)
next
  case False
  then show ?thesis
    by (simp add: match_pair_naive_def Let_def map_compare_view)
qed

lemma map_naive_loop:
  "map_PutativesMatches (fold (match_pair_naive mt rdm g r t) pairs st) =
   filled rdm mt g r t (set pairs) (map_PutativesMatches st)"
proof (induction pairs arbitrary: st)
  case Nil
  show ?case by (simp add: filled_empty)
next
  case (Cons p pairs)
  have "set pairs \<union> {p} = set (p # pairs)" by auto
  then show ?case
    by (simp add: Cons.IH map_match_pair_naive filled_union)
qed

lemma map_Match_naive:
  "map_PutativesMatches (Match_naive mt r rdm g pairs t m0) = filled rdm mt g r t (set pairs) m0"
  by (simp add: Match_naive_def map_naive_loop)

section \<open>Calls to the matcher\<close>

lemma matched_compare_view:
  assumes "RegionCount (g I t) \<noteq> 0"
  shows "matched (compare_view mm g r t I (g I t) J st) =
         matched st \<union> {p \<in> {(I, J)}. comparable g t p}"
  using assms by (auto simp: compare_view_def comparable_def Let_def)

lemma matched_inner_loop:
  assumes "RegionCount (g I t) \<noteq> 0"
  shows "matched (fold (compare_view mm g r t I (g I t)) js st) =
         matched st \<union> {p \<in> {I} \<times> set js. comparable g t p}"
proof (induction js arbitrary: st)
  case Nil
  show ?case by simp
next
  case (Cons j js)
  with assms show ?case
    by (simp add: matched_compare_view) blast
qed

lemma matched_match_group:
  assumes "schedule sched"
  shows "matched (match_group sched mt rdm g r t e st) =
         matched st \<union> {p \<in> {fst e} \<times> set (snd e). comparable g t p}"
proof (cases "RegionCount (g (fst e) t) = 0")
  case True
  then show ?thesis
    by (auto simp: match_group_def Let_def comparable_def)
next
  case False
  then show ?thesis
    by (simp add: match_group_def Let_def matched_inner_loop schedule_set[OF assms])
qed

lemma matched_outer_loop:
  assumes "schedule sched"
  shows "matched (fold (match_group sched mt rdm g r t) groups st) =
         matched st \<union> {p \<in> pairs_of groups. comparable g t p}"
proof (induction groups arbitrary: st)
  case Nil
  show ?case by (simp add: pairs_of_def)
next
  case (Cons e groups)
  have "pairs_of (e # groups) = {fst e} \<times> set (snd e) \<union> pairs_of groups"
    by (auto simp: pairs_of_def)
  then show ?case
    by (simp add: Cons.IH matched_match_group[OF assms]) blast
qed

lemma matched_Match:
  assumes "schedule sched"
  shows "matched (Match sched mt r rdm g pairs t m0) = {p \<in> set pairs. comparable g t p}"
  by (simp add: Match_def matched_outer_loop[OF assms] pairs_of_map_Pairs)

section \<open>Construction of matchers\<close>

lemma built_compare_view: "built (compare_view mm g r t I rI J st) = built st"
  by (simp add: compare_view_def Let_def)

lemma built_inner_loop: "built (fold (compare_view mm g r t I rI) js st) = built st"
  by (induction js arbitrary: st) (simp_all add: built_compare_view)

lemma built_match_group:
  "built (match_group sched mt rdm g r t e st) =
   built st @ filter (\<lambda>I. RegionCount (g I t) \<noteq> 0) [fst e]"
  by (simp add: match_group_def Let_def built_inner_loop)

lemma built_outer_loop:
  "built (fold (match_group sched mt rdm g r t) groups st) =
   built st @ filter (\<lambda>I. RegionCount (g I t) \<noteq> 0) (map fst groups)"
  by (induction groups arbitrary: st) (simp_all add: built_match_group)

lemma keys_push_back_at: "set (map fst (push_back_at i j m)) = insert i (set (map fst m))"
  by (induction i j m rule: push_back_at.induct) auto

lemma sorted_push_back_at:
  "sorted_wrt (<) (map fst m) \<Longrightarrow> sorted_wrt (<) (map fst (push_back_at i j m))"
proof (induction i j m rule: push_back_at.induct)
  case (1 i j)
  show ?case by simp
next
  case (2 i j k js rest)
  then show ?case
    using keys_push_back_at[of i j rest] by (auto simp del: set_map)
qed

lemma keys_fold_push_back_at:
  "set (map fst (fold (\<lambda>p m. push_back_at (fst p) (snd p) m) pairs m)) =
   fst ` set pairs \<union> set (map fst m)"
  by (induction pairs arbitrary: m) (auto simp: keys_push_back_at simp del: set_map)

lemma sorted_fold_push_back_at:
  "sorted_wrt (<) (map fst m) \<Longrightarrow>
   sorted_wrt (<) (map fst (fold (\<lambda>p m. push_back_at (fst p) (snd p) m) pairs m))"
  by (induction pairs arbitrary: m) (simp_all add: sorted_push_back_at)

lemma keys_map_Pairs: "set (map fst (map_Pairs pairs)) = fst ` set pairs"
  using keys_fold_push_back_at[of pairs "[]"] by (simp add: map_Pairs_def)

lemma distinct_map_Pairs: "distinct (map fst (map_Pairs pairs))"
proof -
  have "sorted_wrt (<) (map fst (map_Pairs pairs))"
    using sorted_fold_push_back_at[of "[]" pairs] by (simp add: map_Pairs_def)
  then show ?thesis
    by (simp add: strict_sorted_iff)
qed

lemma built_Match:
  "built (Match sched mt r rdm g pairs t m0) =
   filter (\<lambda>I. RegionCount (g I t) \<noteq> 0) (map fst (map_Pairs pairs))"
  by (simp add: Match_def built_outer_loop)

section \<open>Properties of the collection matcher\<close>

lemmas scene_simps =
  Match_def Match_naive_def map_Pairs_def match_group_def match_pair_naive_def compare_view_def
  emplace_at_def b_multithreaded_pair_search_def scene_pairs_def scene_regions_def
  scene_matcher_def RegionCount_def Let_def

lemma schedule_rev: "schedule (\<lambda>I. rev)"
  by (simp add: schedule_def)

text \<open>
  Claim C1. Started on an empty output map, \<open>Match\<close> leaves a map whose keys are
  all pairs of the input pair set, and the value stored at a key holds, under the
  requested descriptor type and nowhere else, the match vector that the matcher returned
  for that pair, which is not empty. So a pair whose match vector is empty is not a key
  of the map.
\<close>

theorem Match_keys_from_pairs_values_nonempty:
  assumes "schedule sched"
  shows "\<forall>p \<in> dom (map_PutativesMatches (Match sched mt r rdm g pairs t Map.empty)).
           p \<in> set pairs \<and> putatives rdm mt g r t p \<noteq> [] \<and>
           map_PutativesMatches (Match sched mt r rdm g pairs t Map.empty) p =
             Some [t \<mapsto> putatives rdm mt g r t p]"
  by (auto simp: map_Match[OF assms] filled_def slot_def split: if_splits)

theorem Match_keys_from_pairs_values_nonempty_witness:
  "schedule (\<lambda>I. rev) \<and>
   (1, 2) \<in> dom (map_PutativesMatches
      (Match (\<lambda>I. rev) CASCADE_HASHING_L2 (4 / 5) scene_matcher scene_regions scene_pairs 0 Map.empty)) \<and>
   (1, 2) \<in> set scene_pairs \<and>
   map_PutativesMatches
      (Match (\<lambda>I. rev) CASCADE_HASHING_L2 (4 / 5) scene_matcher scene_regions scene_pairs 0 Map.empty)
      (1, 2) = Some [0 \<mapsto> [(0, 0)]] \<and>
   (1, 3) \<notin> dom (map_PutativesMatches
      (Match (\<lambda>I. rev) CASCADE_HASHING_L2 (4 / 5) scene_matcher scene_regions scene_pairs 0 Map.empty))"
proof -
  let ?m = "map_PutativesMatches
      (Match (\<lambda>I. rev) CASCADE_HASHING_L2 (4 / 5) scene_matcher scene_regions scene_pairs (0::nat) Map.empty)"
  have key: "(1, 2) \<in> dom ?m"
    by (simp add: scene_simps dom_def)
  have absent: "(1, 3) \<notin> dom ?m"
    by (simp add: scene_simps dom_def)
  have vec: "putatives scene_matcher CASCADE_HASHING_L2 scene_regions (4 / 5) (0::nat) (1, 2) = [(0, 0)]"
    by (simp add: putatives_def scene_regions_def scene_matcher_def)
  from Match_keys_from_pairs_values_nonempty[OF schedule_rev, of CASCADE_HASHING_L2 "4 / 5"
      scene_matcher scene_regions scene_pairs "0::nat"] key
  have "(1, 2) \<in> set scene_pairs \<and> ?m (1, 2) = Some [0 \<mapsto> [(0, 0)]]"
    unfolding vec[symmetric] by blast
  with key absent schedule_rev show ?thesis
    by blast
qed

text \<open>
  Claim C2. When the reference view \<open>I\<close> has no descriptors of the requested type, or
  the comparison view \<open>J\<close> has none, or the type tags of the two descriptor sets
  differ, \<open>Match\<close> leaves the entry of the output map at \<open>(I, J)\<close> as it found it,
  so the pair is not a key of a map that started empty, and \<open>matcher.Match\<close> is not
  called for the pair.
\<close>

theorem Match_skips_uncomparable:
  assumes "schedule sched"
    and "RegionCount (g I t) = 0 \<or> RegionCount (g J t) = 0 \<or> Type_id (g I t) \<noteq> Type_id (g J t)"
  shows "map_PutativesMatches (Match sched mt r rdm g pairs t m0) (I, J) = m0 (I, J) \<and>
         (I, J) \<notin> dom (map_PutativesMatches (Match sched mt r rdm g pairs t Map.empty)) \<and>
         (I, J) \<notin> matched (Match sched mt r rdm g pairs t m0)"
  using assms(2)
  by (auto simp: map_Match[OF assms(1)] matched_Match[OF assms(1)] filled_def comparable_def)

theorem Match_skips_uncomparable_witness:
  "schedule (\<lambda>I. rev) \<and> RegionCount (scene_regions 0 0) = 0 \<and>
   (0, 3) \<in> set scene_pairs \<and>
   (0, 3) \<notin> dom (map_PutativesMatches
      (Match (\<lambda>I. rev) CASCADE_HASHING_L2 (4 / 5) scene_matcher scene_regions scene_pairs 0 Map.empty)) \<and>
   (0, 3) \<notin> matched
      (Match (\<lambda>I. rev) CASCADE_HASHING_L2 (4 / 5) scene_matcher scene_regions scene_pairs 0 Map.empty)"
proof -
  have empty: "RegionCount (scene_regions 0 0) = 0"
    by (simp add: scene_regions_def RegionCount_def)
  have member: "(0, 3) \<in> set scene_pairs"
    by (simp add: scene_pairs_def)
  from Match_skips_uncomparable[OF schedule_rev, of scene_regions 0 0 3 CASCADE_HASHING_L2
      "4 / 5" scene_matcher scene_pairs Map.empty] empty
  show ?thesis
    using schedule_rev member by blast
qed

text \<open>
  Claim C7. Over one call of \<open>Match\<close> the progress counter, which starts at zero,
  ends at the number of pairs of the input. A reference view without descriptors
  advances it by the number of its comparison views, and every iteration of the inner
  loop advances it by one, whatever becomes of the pair.
\<close>

theorem Match_progress_total:
  assumes "schedule sched"
  shows "my_progress_bar (Match sched mt r rdm g pairs t m0) = length pairs \<and>
         (RegionCount (g (fst e) t) = 0 \<longrightarrow>
            my_progress_bar (match_group sched mt rdm g r t e st) =
            my_progress_bar st + length (snd e)) \<and>
         my_progress_bar (compare_view mm g r t I rI J st) = my_progress_bar st + 1"
  by (simp add: Match_def progress_outer_loop[OF assms] size_map_Pairs
      progress_match_group[OF assms] progress_compare_view)

theorem Match_progress_total_witness:
  "schedule (\<lambda>I. rev) \<and>
   my_progress_bar
     (Match (\<lambda>I. rev) CASCADE_HASHING_L2 (4 / 5) scene_matcher scene_regions scene_pairs 0 Map.empty) = 4 \<and>
   RegionCount (scene_regions (fst (0, [3 :: nat])) 0) = 0 \<and>
   my_progress_bar (match_group (\<lambda>I. rev) CASCADE_HASHING_L2 scene_matcher scene_regions (4 / 5) 0
      (0, [3]) \<lparr>my_progress_bar = 0, map_PutativesMatches = Map.empty, built = [], matched = {}\<rparr>) = 1"
proof -
  let ?st = "\<lparr>my_progress_bar = 0, map_PutativesMatches = (Map.empty :: nat PairwiseMatches),
              built = [], matched = {}\<rparr>"
  have empty: "RegionCount (scene_regions (fst (0, [3::nat])) 0) = 0"
    by (simp add: scene_regions_def RegionCount_def)
  from Match_progress_total[OF schedule_rev, of CASCADE_HASHING_L2 "4 / 5" scene_matcher
      scene_regions scene_pairs "0::nat" Map.empty "(0, [3])" ?st] empty
  show ?thesis
    using schedule_rev by (simp add: scene_pairs_def)
qed

text \<open>
  Claim C4. \<open>Match\<close> constructs a matcher on each reference view that has descriptors
  and occurs as the first component of a requested pair, once and on no other view, and
  it leaves the same output map as the algorithm that handles every pair on its own with
  a matcher built afresh.
\<close>

theorem Match_grouped_refines_naive:
  assumes "schedule sched"
  shows "map_PutativesMatches (Match sched mt r rdm g pairs t m0) =
         map_PutativesMatches (Match_naive mt r rdm g pairs t m0) \<and>
         distinct (built (Match sched mt r rdm g pairs t m0)) \<and>
         set (built (Match sched mt r rdm g pairs t m0)) =
           {I \<in> fst ` set pairs. RegionCount (g I t) \<noteq> 0}"
proof -
  have "map_PutativesMatches (Match sched mt r rdm g pairs t m0) =
        map_PutativesMatches (Match_naive mt r rdm g pairs t m0)"
    by (simp add: map_Match[OF assms] map_Match_naive)
  moreover have "distinct (built (Match sched mt r rdm g pairs t m0))"
    by (simp add: built_Match distinct_map_Pairs)
  moreover have "set (built (Match sched mt r rdm g pairs t m0)) =
                 {I \<in> fst ` set pairs. RegionCount (g I t) \<noteq> 0}"
    using keys_map_Pairs[of pairs] by (auto simp: built_Match simp del: set_map)
  ultimately show ?thesis
    by blast
qed

theorem Match_grouped_refines_naive_witness:
  "schedule (\<lambda>I. rev) \<and>
   map_PutativesMatches
     (Match (\<lambda>I. rev) CASCADE_HASHING_L2 (4 / 5) scene_matcher scene_regions scene_pairs 0 Map.empty) =
   map_PutativesMatches
     (Match_naive CASCADE_HASHING_L2 (4 / 5) scene_matcher scene_regions scene_pairs 0 Map.empty) \<and>
   built (Match (\<lambda>I. rev) CASCADE_HASHING_L2 (4 / 5) scene_matcher scene_regions scene_pairs 0 Map.empty)
     = [1, 2] \<and>
   built (Match_naive CASCADE_HASHING_L2 (4 / 5) scene_matcher scene_regions scene_pairs 0 Map.empty)
     = [1, 1, 2]"
proof -
  have grouped: "built (Match (\<lambda>I. rev) CASCADE_HASHING_L2 (4 / 5) scene_matcher scene_regions
      scene_pairs (0::nat) Map.empty) = [1, 2]"
    by (simp add: scene_simps)
  have naive: "built (Match_naive CASCADE_HASHING_L2 (4 / 5) scene_matcher scene_regions
      scene_pairs (0::nat) Map.empty) = [1, 1, 2]"
    by (simp add: scene_simps)
  from Match_grouped_refines_naive[OF schedule_rev, of CASCADE_HASHING_L2 "4 / 5" scene_matcher
      scene_regions scene_pairs "0::nat" Map.empty]
  show ?thesis
    using schedule_rev grouped naive by blast
qed



text \<open>
  Claim C3, as the code has it. The inner loop is run in parallel exactly when the
  configured strategy is cascade hashing: with any other strategy the schedule offered
  by the runtime is ignored and the loop runs in index order, and with cascade hashing
  the loop follows the schedule.
\<close>

theorem inner_loop_parallel_iff_cascade_hashing:
  "(b_multithreaded_pair_search matcherType \<longleftrightarrow> matcherType = CASCADE_HASHING_L2) \<and>
   (matcherType \<noteq> CASCADE_HASHING_L2 \<longrightarrow>
      match_group sched matcherType rdm g r t e st =
      match_group (\<lambda>I js. js) matcherType rdm g r t e st) \<and>
   (RegionCount (g (fst e) t) \<noteq> 0 \<longrightarrow>
      match_group sched CASCADE_HASHING_L2 rdm g r t e st =
      fold (compare_view (rdm CASCADE_HASHING_L2 (g (fst e) t)) g r t (fst e) (g (fst e) t))
        (sched (fst e) (snd e)) (st\<lparr>built := built st @ [fst e]\<rparr>))"
  by (simp add: b_multithreaded_pair_search_def match_group_def Let_def)

theorem inner_loop_parallel_iff_cascade_hashing_witness:
  "ANN_L2 \<noteq> CASCADE_HASHING_L2 \<and> \<not> b_multithreaded_pair_search ANN_L2 \<and>
   match_group (\<lambda>I. rev) ANN_L2 scene_matcher scene_regions (4 / 5) 0 (1, [2, 3])
     \<lparr>my_progress_bar = 0, map_PutativesMatches = Map.empty, built = [], matched = {}\<rparr> =
   match_group (\<lambda>I js. js) ANN_L2 scene_matcher scene_regions (4 / 5) 0 (1, [2, 3])
     \<lparr>my_progress_bar = 0, map_PutativesMatches = Map.empty, built = [], matched = {}\<rparr> \<and>
   RegionCount (scene_regions (fst (1, [2, 3 :: nat])) 0) \<noteq> 0 \<and>
   match_group (\<lambda>I. rev) CASCADE_HASHING_L2 scene_matcher scene_regions (4 / 5) 0 (1, [2, 3])
     \<lparr>my_progress_bar = 0, map_PutativesMatches = Map.empty, built = [], matched = {}\<rparr> =
   fold (compare_view (scene_matcher CASCADE_HASHING_L2 (scene_regions 1 0)) scene_regions (4 / 5) 0
           1 (scene_regions 1 0))
     [3, 2]
     \<lparr>my_progress_bar = 0, map_PutativesMatches = Map.empty, built = [1], matched = {}\<rparr>"
proof -
  let ?st = "\<lparr>my_progress_bar = 0, map_PutativesMatches = (Map.empty :: nat PairwiseMatches),
              built = [], matched = {}\<rparr>"
  have nonempty: "RegionCount (scene_regions (fst (1, [2, 3::nat])) 0) \<noteq> 0"
    by (simp add: scene_regions_def RegionCount_def)
  have other: "ANN_L2 \<noteq> CASCADE_HASHING_L2"
    by simp
  from inner_loop_parallel_iff_cascade_hashing[of ANN_L2 "\<lambda>I. rev" scene_matcher scene_regions
      "4 / 5" "0::nat" "(1, [2, 3])" ?st] other
  have serial: "\<not> b_multithreaded_pair_search ANN_L2 \<and>
    match_group (\<lambda>I. rev) ANN_L2 scene_matcher scene_regions (4 / 5) 0 (1, [2, 3]) ?st =
    match_group (\<lambda>I js. js) ANN_L2 scene_matcher scene_regions (4 / 5) 0 (1, [2, 3]) ?st"
    by blast
  from inner_loop_parallel_iff_cascade_hashing[of CASCADE_HASHING_L2 "\<lambda>I. rev" scene_matcher
      scene_regions "4 / 5" "0::nat" "(1, [2, 3])" ?st] nonempty
  have parallel: "match_group (\<lambda>I. rev) CASCADE_HASHING_L2 scene_matcher scene_regions (4 / 5) 0
      (1, [2, 3]) ?st =
    fold (compare_view (scene_matcher CASCADE_HASHING_L2 (scene_regions 1 0)) scene_regions (4 / 5) 0
           1 (scene_regions 1 0))
      [3, 2] \<lparr>my_progress_bar = 0, map_PutativesMatches = Map.empty, built = [1], matched = {}\<rparr>"
    by simp
  from other serial nonempty parallel show ?thesis
    by blast
qed

text \<open>
  Claim C3, as the specification states it, asks for a single-threaded inner loop under
  cascade hashing. The flag that enables the parallel loop is set for that strategy.
\<close>

theorem cascade_hashing_runs_parallel:
  "b_multithreaded_pair_search CASCADE_HASHING_L2"
  by (simp add: b_multithreaded_pair_search_def)

section \<open>The ratio test\<close>






section \<open>The localizer\<close>

text \<open>
  Claim C8. Unless the database query itself ends fatally, \<open>Localize\<close> returns a
  boolean. Each of the expected failures is reported as the result \<open>False\<close>, with
  its reason in the outcome of the request: no retrieval candidates, fewer
  correspondences than the solver needs, and a solver that finds no pose.
\<close>

theorem Localize_reports_expected_failures:
  assumes "databaseQuery (map Quantize query_regions) (topK cfg) = Inr candidates"
  shows "(\<exists>b. Localize cfg Quantize databaseQuery matchCandidate Resect query_regions = Inr b) \<and>
         (candidates = [] \<longrightarrow>
            localize_request cfg Quantize databaseQuery matchCandidate Resect query_regions =
              Inr (Failed NoRetrievalCandidates) \<and>
            Localize cfg Quantize databaseQuery matchCandidate Resect query_regions = Inr False) \<and>
         (candidates \<noteq> [] \<and>
          length (gather_correspondences cfg matchCandidate candidates) < resectionMinimum cfg \<longrightarrow>
            localize_request cfg Quantize databaseQuery matchCandidate Resect query_regions =
              Inr (Failed InsufficientCorrespondences) \<and>
            Localize cfg Quantize databaseQuery matchCandidate Resect query_regions = Inr False) \<and>
         (candidates \<noteq> [] \<and>
          \<not> length (gather_correspondences cfg matchCandidate candidates) < resectionMinimum cfg \<and>
          Resect (gather_correspondences cfg matchCandidate candidates) = None \<longrightarrow>
            localize_request cfg Quantize databaseQuery matchCandidate Resect query_regions =
              Inr (Failed ResectionFailed) \<and>
            Localize cfg Quantize databaseQuery matchCandidate Resect query_regions = Inr False)"
  using assms
  by (auto simp: Localize_def localize_request_def Let_def split: option.splits)

theorem Localize_reports_expected_failures_witness:
  "scene_database (map (\<lambda>d. 0) [[1, 2, 3 :: nat]]) (topK scene_config) = Inr [(5, 1)] \<and>
   length (gather_correspondences scene_config scene_candidate_matches [(5, 1)]) <
     resectionMinimum scene_config \<and>
   localize_request scene_config (\<lambda>d. 0) scene_database scene_candidate_matches scene_solver
     [[1, 2, 3 :: nat]] = Inr (Failed InsufficientCorrespondences) \<and>
   Localize scene_config (\<lambda>d. 0) scene_database scene_candidate_matches scene_solver
     [[1, 2, 3 :: nat]] = Inr False"
proof -
  have query: "scene_database (map (\<lambda>d. 0) [[1, 2, 3 :: nat]]) (topK scene_config) = Inr [(5, 1)]"
    by (simp add: scene_database_def scene_config_def)
  have few: "length (gather_correspondences scene_config scene_candidate_matches [(5, 1)]) <
     resectionMinimum scene_config"
    by (simp add: gather_correspondences_def attempted_candidates_def scene_config_def
        scene_candidate_matches_def Let_def)
  from Localize_reports_expected_failures[where databaseQuery = scene_database
      and Quantize = "\<lambda>d. 0" and query_regions = "[[1, 2, 3 :: nat]]" and cfg = scene_config
      and candidates = "[(5, 1)]" and matchCandidate = scene_candidate_matches
      and Resect = scene_solver] query few
  show ?thesis
    by simp
qed

section \<open>Grid filtering\<close>












end
